theory Spec2Isabelle
  imports Main "HOL-Library.Sublist"
begin

section \<open>The shared context: an insertion-ordered dictionary of host records\<close>

text \<open>
  \<^verbatim>\<open>Context.host_status\<close> is a Python \<^verbatim>\<open>OrderedDict\<close> from host name to the host's
  latest text. Iteration order matters (the page is rendered in it), so the dictionary is
  an association list with unique keys, in insertion order.
\<close>

type_synonym host = string

type_synonym 'v ordered_dict = "(host \<times> 'v) list"

text \<open>
  \<^verbatim>\<open>d[k] = v\<close>: an existing key keeps its position and gets the new value, a new key is
  appended at the end.
\<close>

fun od_setitem :: "'v ordered_dict \<Rightarrow> host \<Rightarrow> 'v \<Rightarrow> 'v ordered_dict" where
  "od_setitem [] k v = [(k, v)]"
| "od_setitem ((k', v') # kvs) k v =
     (if k' = k then (k, v) # kvs else (k', v') # od_setitem kvs k v)"

text \<open>\<^verbatim>\<open>d.get(k)\<close>: the value stored under the key, if any.\<close>

definition od_get :: "'v ordered_dict \<Rightarrow> host \<Rightarrow> 'v option" where
  "od_get d k = map_of d k"

text \<open>\<^verbatim>\<open>d.keys()\<close>, in iteration order.\<close>

definition od_keys :: "'v ordered_dict \<Rightarrow> host list" where
  "od_keys d = map fst d"

record Context =
  host_status :: "string ordered_dict"

text \<open>\<^verbatim>\<open>context = Context()\<close>: the dictionary starts empty.\<close>

definition Context_init :: Context where
  "Context_init = \<lparr>host_status = []\<rparr>"

text \<open>
  \<^verbatim>\<open>termcolor.colored(text, color)\<close> belongs to an external library. Every function that
  calls it takes it as the parameter \<open>colored\<close>; the theorems hold for any such function.
\<close>

type_synonym colorizer = "string \<Rightarrow> string \<Rightarrow> string"

text \<open>
  For evaluations at concrete inputs: what termcolor returns when colours are enabled,
  the text between the escape sequence of the colour and the reset sequence,
  \<^verbatim>\<open>'\033[%dm%s' % (COLORS[color], text) + '\033[0m'\<close>. The program passes the colour
  names \<^verbatim>\<open>'white'\<close> and \<^verbatim>\<open>'red'\<close> only.
\<close>

definition ansi_colored :: colorizer where
  "ansi_colored text color =
     [CHR 0x1B] @ ''['' @ (if color = ''red'' then ''31'' else ''37'') @ ''m'' @ text
       @ [CHR 0x1B] @ ''[0m''"

text \<open>
  \<^verbatim>\<open>self.host_status[host] = colored(f"({host}) ", 'white') + msg + '\n'\<close>:
  \<open>host_message\<close> is the right-hand side, \<open>host_set_message\<close> the assignment.
\<close>

definition host_message :: "colorizer \<Rightarrow> host \<Rightarrow> string \<Rightarrow> string" where
  "host_message colored host msg = colored (''('' @ host @ '') '') ''white'' @ msg @ [CHR 0x0A]"

definition host_set_message :: "colorizer \<Rightarrow> Context \<Rightarrow> host \<Rightarrow> string \<Rightarrow> Context" where
  "host_set_message colored ctx host msg =
     ctx\<lparr>host_status := od_setitem (host_status ctx) host (host_message colored host msg)\<rparr>"

section \<open>One host's monitor: \<^verbatim>\<open>run_client\<close>\<close>

text \<open>
  \<^verbatim>\<open>run_client\<close> is a coroutine. It suspends at three places: opening the connection
  (\<^verbatim>\<open>asyncssh.connect\<close>), running the remote command (\<^verbatim>\<open>conn.run\<close>) and sleeping
  (\<^verbatim>\<open>asyncio.sleep\<close>). Between two suspensions it runs without interruption. The model is
  a step function: the place where the coroutine is suspended, the context, and the
  outcome of the pending await give the next place and the updated context.

  An await either returns or raises. The handler of \<^verbatim>\<open>run_client\<close> tells
  \<^verbatim>\<open>asyncssh.misc.DisconnectError\<close> (carrying \<^verbatim>\<open>str(ex)\<close>) from every other exception.
\<close>

datatype exn = DisconnectError string | OtherException string

datatype outcome =
    Connected
  | RunCompleted int string
  | SleepReturned
  | Raised exn

text \<open>
  Where the coroutine stands: suspended at one of its awaits, returned normally (after
  the \<^verbatim>\<open>except\<close> clause), or left by an exception that no clause caught.
\<close>

datatype pc = AtConnect | AtRun | AtSleep | Returned | Propagated exn

text \<open>
  An exception raised by any await inside the \<^verbatim>\<open>try\<close>: a \<^verbatim>\<open>DisconnectError\<close> is caught
  and recorded through \<^verbatim>\<open>host_set_message\<close>, anything else leaves the coroutine. (The
  \<^verbatim>\<open>finally\<close> clause and \<^verbatim>\<open>traceback.print_exc\<close> only print.)
\<close>

fun run_client_except :: "colorizer \<Rightarrow> host \<Rightarrow> Context \<Rightarrow> exn \<Rightarrow> pc \<times> Context" where
  "run_client_except colored host ctx (DisconnectError ex) =
     (Returned, host_set_message colored ctx host (colored ex ''red''))"
| "run_client_except colored host ctx (OtherException ex) =
     (Propagated (OtherException ex), ctx)"

text \<open>
  The body of the polling loop after \<^verbatim>\<open>conn.run\<close> has returned \<^verbatim>\<open>result\<close>:
  \<^verbatim>\<open>if result.exit_status != 0: (print) else: context.host_status[host] = result.stdout\<close>.
  The exit status is an integer.
\<close>

definition run_client_update :: "host \<Rightarrow> Context \<Rightarrow> int \<Rightarrow> string \<Rightarrow> Context" where
  "run_client_update host ctx exit_status stdout =
     (if exit_status \<noteq> 0 then ctx
      else ctx\<lparr>host_status := od_setitem (host_status ctx) host stdout\<rparr>)"

text \<open>
  One step of the coroutine. An outcome that does not answer the pending await is never
  delivered by the event loop; the model leaves the coroutine where it is.
\<close>

fun run_client_step :: "colorizer \<Rightarrow> host \<Rightarrow> pc \<times> Context \<Rightarrow> outcome \<Rightarrow> pc \<times> Context" where
  "run_client_step colored host (AtConnect, ctx) Connected = (AtRun, ctx)"
| "run_client_step colored host (AtRun, ctx) (RunCompleted exit_status stdout) =
     (AtSleep, run_client_update host ctx exit_status stdout)"
| "run_client_step colored host (AtSleep, ctx) SleepReturned = (AtRun, ctx)"
| "run_client_step colored host (Returned, ctx) ev = (Returned, ctx)"
| "run_client_step colored host (Propagated e, ctx) ev = (Propagated e, ctx)"
| "run_client_step colored host (p, ctx) (Raised e) = run_client_except colored host ctx e"
| "run_client_step colored host (p, ctx) ev = (p, ctx)"

text \<open>The coroutine driven through a sequence of outcomes.\<close>

definition run_client :: "colorizer \<Rightarrow> host \<Rightarrow> pc \<times> Context \<Rightarrow> outcome list \<Rightarrow> pc \<times> Context" where
  "run_client colored host s evs = foldl (run_client_step colored host) s evs"

section \<open>The fleet: \<^verbatim>\<open>spawn_clients\<close>\<close>

datatype py_error = ValueError

text \<open>
  The fleet is the shared context and one coroutine per entry of the host list, each
  with the host it was started for.
\<close>

type_synonym fleet = "Context \<times> (host \<times> pc) list"

text \<open>
  \<^verbatim>\<open>for host in hosts: context.host_set_message(host, "Loading ...")\<close>
\<close>

definition spawn_clients_init :: "colorizer \<Rightarrow> Context \<Rightarrow> host list \<Rightarrow> Context" where
  "spawn_clients_init colored ctx hosts =
     foldl (\<lambda>c host. host_set_message colored c host ''Loading ...'') ctx hosts"

text \<open>
  \<^verbatim>\<open>spawn_clients\<close> up to the point where every coroutine handed to \<^verbatim>\<open>asyncio.gather\<close>
  is suspended at its first await. \<^verbatim>\<open>max(len(host) for host in hosts)\<close> raises
  \<^verbatim>\<open>ValueError\<close> on an empty list, after the (empty) placeholder loop.
\<close>

definition spawn_clients :: "colorizer \<Rightarrow> Context \<Rightarrow> host list \<Rightarrow> py_error + fleet" where
  "spawn_clients colored ctx hosts =
     (let ctx' = spawn_clients_init colored ctx hosts in
      if hosts = [] then Inl ValueError
      else Inr (ctx', map (\<lambda>host. (host, AtConnect)) hosts))"

text \<open>
  The event loop resumes one suspended coroutine at a time with the outcome of its await;
  the coroutine runs up to its next await. \<^verbatim>\<open>asyncio.gather\<close> without
  \<^verbatim>\<open>return_exceptions\<close> does not cancel the other coroutines when one raises, so an
  event may reach any coroutine at any time: every interleaving is a sequence of events.
  An event names the coroutine by its position in the host list.
\<close>

definition fleet_step :: "colorizer \<Rightarrow> fleet \<Rightarrow> nat \<times> outcome \<Rightarrow> fleet" where
  "fleet_step colored fl ev =
     (case fl of (ctx, ms) \<Rightarrow> case ev of (i, out) \<Rightarrow>
        if i < length ms then
          (case ms ! i of (host, p) \<Rightarrow>
             case run_client_step colored host (p, ctx) out of (p', ctx') \<Rightarrow>
               (ctx', ms[i := (host, p')]))
        else (ctx, ms))"

definition fleet_run :: "colorizer \<Rightarrow> fleet \<Rightarrow> (nat \<times> outcome) list \<Rightarrow> fleet" where
  "fleet_run colored fl evs = foldl (fleet_step colored) fl evs"

section \<open>Rendering: \<^verbatim>\<open>render_gpustat_body\<close>\<close>

text \<open>
  The loop of \<^verbatim>\<open>render_gpustat_body\<close>: the accumulator \<^verbatim>\<open>body\<close> after the items of the
  dictionary have been visited in order; an empty status is skipped.
\<close>

fun render_loop :: "string \<Rightarrow> string ordered_dict \<Rightarrow> string" where
  "render_loop body [] = body"
| "render_loop body ((host, status) # items) =
     (if status = [] then render_loop body items
      else render_loop (body @ status) items)"

text \<open>
  \<^verbatim>\<open>ansi_conv.convert(body, full=False)\<close> is the external conversion of coloured terminal
  text into markup: the parameter \<open>convert\<close>.
\<close>

definition render_gpustat_body :: "(string \<Rightarrow> string) \<Rightarrow> Context \<Rightarrow> string" where
  "render_gpustat_body convert ctx = convert (render_loop [] (host_status ctx))"

section \<open>The viewer's connection: \<^verbatim>\<open>websocket_handler\<close>\<close>

datatype WSMsgType = CLOSE | TEXT | ERROR | BINARY | PING | PONG

record WSMessage =
  msg_type :: WSMsgType
  msg_data :: string

text \<open>
  What the handler can observe of \<^verbatim>\<open>web.WebSocketResponse\<close>: whether it has been closed
  and the text messages sent so far, oldest first.
\<close>

record WebSocketResponse =
  closed :: bool
  sent :: "string list"

text \<open>
  \<^verbatim>\<open>_handle_websocketmessage\<close>: \<^verbatim>\<open>ws.close()\<close> on the data \<^verbatim>\<open>'close'\<close>, otherwise
  \<^verbatim>\<open>ws.send_str(render_gpustat_body())\<close> against the context as it is at that moment.
\<close>

definition handle_websocketmessage ::
  "(string \<Rightarrow> string) \<Rightarrow> Context \<Rightarrow> WebSocketResponse \<Rightarrow> WSMessage \<Rightarrow> WebSocketResponse" where
  "handle_websocketmessage convert ctx ws msg =
     (if msg_data msg = ''close'' then ws\<lparr>closed := True\<rparr>
      else ws\<lparr>sent := sent ws @ [render_gpustat_body convert ctx]\<rparr>)"

text \<open>
  \<^verbatim>\<open>async for msg in ws\<close>: every inbound message comes with the context as it is when the
  message is handled (the monitors run between two receives). The iteration ends when
  the stream is exhausted or the response has been closed; the loop body breaks on
  \<^verbatim>\<open>CLOSE\<close>, handles \<^verbatim>\<open>TEXT\<close>, and only prints on \<^verbatim>\<open>ERROR\<close>.
\<close>

fun websocket_handler ::
  "(string \<Rightarrow> string) \<Rightarrow> WebSocketResponse \<Rightarrow> (WSMessage \<times> Context) list \<Rightarrow> WebSocketResponse" where
  "websocket_handler convert ws [] = ws"
| "websocket_handler convert ws ((msg, ctx) # rest) =
     (if closed ws then ws
      else if msg_type msg = CLOSE then ws
      else if msg_type msg = TEXT then
        websocket_handler convert (handle_websocketmessage convert ctx ws msg) rest
      else websocket_handler convert ws rest)"

section \<open>Facts about the dictionary, the monitor and the rendering loop\<close>

lemma od_get_setitem:
  "od_get (od_setitem d k v) k' = (if k' = k then Some v else od_get d k')"
  by (induction d) (auto simp: od_get_def)

lemma od_keys_setitem:
  "od_keys (od_setitem d k v) = (if k \<in> set (od_keys d) then od_keys d else od_keys d @ [k])"
  by (induction d) (force simp: od_keys_def)+

lemma render_loop_concat: "render_loop body d = body @ concat (map snd d)"
  by (induction body d rule: render_loop.induct) auto

lemma od_get_keys_records:
  "distinct (od_keys d) \<Longrightarrow>
   map (\<lambda>k. case od_get d k of Some r \<Rightarrow> r | None \<Rightarrow> []) (od_keys d) = map snd d"
proof (induction d)
  case Nil
  then show ?case by (simp add: od_keys_def)
next
  case (Cons kv d)
  obtain k v where kv: "kv = (k, v)" by (cases kv)
  from Cons.prems kv have notin: "k \<notin> set (od_keys d)" and dist: "distinct (od_keys d)"
    by (simp_all add: od_keys_def)
  have "map (\<lambda>k'. case od_get (kv # d) k' of Some r \<Rightarrow> r | None \<Rightarrow> []) (od_keys d)
        = map (\<lambda>k'. case od_get d k' of Some r \<Rightarrow> r | None \<Rightarrow> []) (od_keys d)"
    using notin kv by (intro map_cong) (auto simp: od_get_def)
  with Cons.IH [OF dist] kv show ?case
    by (simp add: od_keys_def od_get_def)
qed

lemma run_client_step_cases:
  assumes "run_client_step colored h (p, ctx) out = (p', ctx')"
  shows "ctx' = ctx \<or> (\<exists>v. ctx' = ctx\<lparr>host_status := od_setitem (host_status ctx) h v\<rparr>)"
proof (cases out)
  case (Raised e)
  with assms show ?thesis
    by (cases p; cases e) (auto simp: host_set_message_def)
next
  case (RunCompleted es stdout)
  with assms show ?thesis
    by (cases p) (auto simp: run_client_update_def split: if_splits)
qed (use assms in \<open>cases p; auto\<close>)+

lemma run_client_step_get_other:
  assumes "run_client_step colored h (p, ctx) out = (p', ctx')" and "h' \<noteq> h"
  shows "od_get (host_status ctx') h' = od_get (host_status ctx) h'"
  using run_client_step_cases [OF assms(1)] assms(2) by (auto simp: od_get_setitem)

lemma run_client_step_keys:
  assumes "run_client_step colored h (p, ctx) out = (p', ctx')"
    and "h \<in> set (od_keys (host_status ctx))"
  shows "od_keys (host_status ctx') = od_keys (host_status ctx)"
  using run_client_step_cases [OF assms(1)] assms(2) by (auto simp: od_keys_setitem)

lemma run_client_finished:
  "p = Returned \<or> p = Propagated e \<Longrightarrow> run_client colored h (p, ctx) evs = (p, ctx)"
  unfolding run_client_def by (induction evs) auto

lemma fleet_step_unfold:
  assumes "i < length ms" and "ms ! i = (h, p)"
  shows "fleet_step colored (ctx, ms) (i, out) =
           (snd (run_client_step colored h (p, ctx) out),
            ms[i := (h, fst (run_client_step colored h (p, ctx) out))])"
  using assms by (simp add: fleet_step_def split: prod.splits)

lemma fleet_step_out_of_range:
  "\<not> i < length ms \<Longrightarrow> fleet_step colored (ctx, ms) (i, out) = (ctx, ms)"
  by (simp add: fleet_step_def)

lemma fleet_step_hosts:
  assumes "fleet_step colored (ctx, ms) ev = (ctx', ms')"
  shows "map fst ms' = map fst ms"
proof -
  obtain i out where ev: "ev = (i, out)" by (cases ev)
  show ?thesis
  proof (cases "i < length ms")
    case True
    obtain h p where hp: "ms ! i = (h, p)" by (cases "ms ! i")
    have "(map fst ms)[i := h] = map fst ms"
      using True hp by (simp add: list_update_same_conv)
    moreover from assms ev True hp
    have "ms' = ms[i := (h, fst (run_client_step colored h (p, ctx) out))]"
      by (simp add: fleet_step_unfold)
    ultimately show ?thesis
      by (simp add: map_update)
  next
    case False
    with assms ev show ?thesis by (simp add: fleet_step_out_of_range)
  qed
qed

lemma fleet_step_keys:
  assumes "fleet_step colored (ctx, ms) ev = (ctx', ms')"
    and "set (map fst ms) \<subseteq> set (od_keys (host_status ctx))"
  shows "od_keys (host_status ctx') = od_keys (host_status ctx)"
proof -
  obtain i out where ev: "ev = (i, out)" by (cases ev)
  show ?thesis
  proof (cases "i < length ms")
    case True
    obtain h p where hp: "ms ! i = (h, p)" by (cases "ms ! i")
    have "h \<in> set (map fst ms)"
      using True hp by (metis fst_conv length_map nth_map nth_mem)
    with assms(2) have mem: "h \<in> set (od_keys (host_status ctx))" by blast
    obtain p' c' where st: "run_client_step colored h (p, ctx) out = (p', c')"
      by (cases "run_client_step colored h (p, ctx) out")
    from assms(1) ev True hp st have "ctx' = c'"
      by (simp add: fleet_step_unfold)
    with run_client_step_keys [OF st mem] show ?thesis by simp
  next
    case False
    with assms ev show ?thesis by (simp add: fleet_step_out_of_range)
  qed
qed

lemma fleet_run_keys:
  assumes "fleet_run colored (ctx, ms) evs = (ctx', ms')"
    and "set (map fst ms) \<subseteq> set (od_keys (host_status ctx))"
  shows "od_keys (host_status ctx') = od_keys (host_status ctx) \<and> map fst ms' = map fst ms"
  using assms
proof (induction evs arbitrary: ctx ms)
  case Nil
  then show ?case by (simp add: fleet_run_def)
next
  case (Cons ev evs)
  obtain c1 m1 where s1: "fleet_step colored (ctx, ms) ev = (c1, m1)"
    by (cases "fleet_step colored (ctx, ms) ev")
  have k1: "od_keys (host_status c1) = od_keys (host_status ctx)"
    by (rule fleet_step_keys [OF s1 Cons.prems(2)])
  have h1: "map fst m1 = map fst ms"
    by (rule fleet_step_hosts [OF s1])
  from Cons.prems(1) s1 have r: "fleet_run colored (c1, m1) evs = (ctx', ms')"
    by (simp add: fleet_run_def)
  from Cons.prems(2) k1 h1 have sub: "set (map fst m1) \<subseteq> set (od_keys (host_status c1))"
    by simp
  from Cons.IH [OF r sub] k1 h1 show ?case by simp
qed

lemma fleet_step_finished:
  assumes "fleet_step colored (ctx, ms) ev = (ctx', ms')"
    and "distinct (map fst ms)" and "j < length ms" and "ms ! j = (h, p)"
    and "p = Returned \<or> (\<exists>e. p = Propagated e)"
  shows "od_get (host_status ctx') h = od_get (host_status ctx) h \<and> ms' ! j = (h, p)"
proof -
  obtain i out where ev: "ev = (i, out)" by (cases ev)
  show ?thesis
  proof (cases "i < length ms")
    case True
    obtain h' q where hq: "ms ! i = (h', q)" by (cases "ms ! i")
    obtain q' c' where st: "run_client_step colored h' (q, ctx) out = (q', c')"
      by (cases "run_client_step colored h' (q, ctx) out")
    from assms(1) ev True hq st have res: "ctx' = c'" "ms' = ms[i := (h', q')]"
      by (simp_all add: fleet_step_unfold)
    show ?thesis
    proof (cases "i = j")
      case True
      with hq assms(4) have "h' = h" "q = p" by simp_all
      with st assms(5) have "q' = p" "c' = ctx" by auto
      with res True \<open>h' = h\<close> assms(3) show ?thesis by simp
    next
      case False
      have "map fst ms ! i \<noteq> map fst ms ! j"
        using False True assms(2,3) nth_eq_iff_index_eq [of "map fst ms" i j] by simp
      with True assms(3,4) hq have "h \<noteq> h'" by auto
      from run_client_step_get_other [OF st this] res False assms(4)
      show ?thesis by simp
    qed
  next
    case False
    with assms ev show ?thesis by (simp add: fleet_step_out_of_range)
  qed
qed

lemma fleet_run_finished:
  assumes "fleet_run colored (ctx, ms) evs = (ctx', ms')"
    and "distinct (map fst ms)" and "j < length ms" and "ms ! j = (h, p)"
    and "p = Returned \<or> (\<exists>e. p = Propagated e)"
  shows "od_get (host_status ctx') h = od_get (host_status ctx) h \<and> ms' ! j = (h, p)"
  using assms(1-4)
proof (induction evs arbitrary: ctx ms)
  case Nil
  then show ?case by (simp add: fleet_run_def)
next
  case (Cons ev evs)
  obtain c1 m1 where s1: "fleet_step colored (ctx, ms) ev = (c1, m1)"
    by (cases "fleet_step colored (ctx, ms) ev")
  have f1: "od_get (host_status c1) h = od_get (host_status ctx) h \<and> m1 ! j = (h, p)"
    by (rule fleet_step_finished [OF s1 Cons.prems(2-4) assms(5)])
  have h1: "map fst m1 = map fst ms"
    by (rule fleet_step_hosts [OF s1])
  then have d1: "distinct (map fst m1)" and l1: "j < length m1"
    using Cons.prems(2,3) by (simp, metis length_map)
  from Cons.prems(1) s1 have r: "fleet_run colored (c1, m1) evs = (ctx', ms')"
    by (simp add: fleet_run_def)
  from Cons.IH [OF r d1 l1] f1 show ?case by simp
qed

lemma remdups_append_mem:
  "x \<in> set ys \<Longrightarrow> remdups (xs @ x # ys) = remdups (xs @ ys)"
  by (induction xs) auto

lemma host_set_message_keys:
  "od_keys (host_status (host_set_message colored ctx h msg)) =
     (if h \<in> set (od_keys (host_status ctx)) then od_keys (host_status ctx)
      else od_keys (host_status ctx) @ [h])"
  by (simp add: host_set_message_def od_keys_setitem)

lemma host_set_message_get:
  "od_get (host_status (host_set_message colored ctx h msg)) h' =
     (if h' = h then Some (host_message colored h msg) else od_get (host_status ctx) h')"
  by (simp add: host_set_message_def od_get_setitem)

lemma spawn_clients_init_keys:
  "distinct (od_keys (host_status ctx)) \<Longrightarrow>
   od_keys (host_status (spawn_clients_init colored ctx hosts)) =
     rev (remdups (rev (od_keys (host_status ctx) @ hosts)))"
proof (induction hosts arbitrary: ctx)
  case Nil
  then show ?case by (simp add: spawn_clients_init_def distinct_remdups_id)
next
  case (Cons h hosts)
  let ?c = "host_set_message colored ctx h ''Loading ...''"
  have d: "distinct (od_keys (host_status ?c))"
    using Cons.prems by (simp add: host_set_message_keys)
  have "od_keys (host_status (spawn_clients_init colored ctx (h # hosts))) =
        od_keys (host_status (spawn_clients_init colored ?c hosts))"
    by (simp add: spawn_clients_init_def)
  also have "\<dots> = rev (remdups (rev (od_keys (host_status ?c) @ hosts)))"
    by (rule Cons.IH [OF d])
  also have "\<dots> = rev (remdups (rev (od_keys (host_status ctx) @ h # hosts)))"
    by (simp add: host_set_message_keys remdups_append_mem)
  finally show ?case .
qed

lemma spawn_clients_init_get:
  "od_get (host_status (spawn_clients_init colored ctx hosts)) h =
     (if h \<in> set hosts then Some (host_message colored h ''Loading ...'')
      else od_get (host_status ctx) h)"
proof (induction hosts arbitrary: ctx)
  case Nil
  then show ?case by (simp add: spawn_clients_init_def)
next
  case (Cons a hosts)
  have "spawn_clients_init colored ctx (a # hosts) =
        spawn_clients_init colored (host_set_message colored ctx a ''Loading ...'') hosts"
    by (simp add: spawn_clients_init_def)
  then show ?case
    by (simp add: Cons.IH host_set_message_get)
qed

lemma spawn_clients_init_keys_empty:
  "od_keys (host_status (spawn_clients_init colored Context_init hosts)) = rev (remdups (rev hosts))"
  using spawn_clients_init_keys [of Context_init colored hosts]
  by (simp add: Context_init_def od_keys_def)

lemma render_gpustat_body_records:
  assumes "distinct (od_keys (host_status ctx))"
  shows "render_gpustat_body convert ctx =
         convert (concat (map (\<lambda>h. case od_get (host_status ctx) h of Some r \<Rightarrow> r | None \<Rightarrow> [])
                           (od_keys (host_status ctx))))"
  by (simp add: render_gpustat_body_def render_loop_concat od_get_keys_records [OF assms])

lemma render_skips_empty:
  "distinct (od_keys d) \<Longrightarrow> od_get d h = Some [] \<Longrightarrow>
   concat (map snd (filter (\<lambda>(k, v). k \<noteq> h) d)) = concat (map snd d)"
proof (induction d)
  case Nil
  then show ?case by simp
next
  case (Cons kv d)
  obtain k v where kv: "kv = (k, v)" by (cases kv)
  show ?case
  proof (cases "k = h")
    case True
    with Cons.prems kv have "v = []" and "h \<notin> fst ` set d"
      by (auto simp: od_get_def od_keys_def)
    then have "filter (\<lambda>(k, v). k \<noteq> h) d = d"
      by (intro filter_True) force
    with True kv \<open>v = []\<close> show ?thesis by simp
  next
    case False
    with Cons.prems kv have "distinct (od_keys d)" "od_get d h = Some []"
      by (auto simp: od_get_def od_keys_def)
    with Cons.IH False kv show ?thesis by simp
  qed
qed

section \<open>The claims\<close>

text \<open>
  C1. When a poll of host \<open>h\<close> completes with exit status 0 and output \<open>X\<close>, the record
  of \<open>h\<close> in the context is \<open>X\<close> exactly, and the record of every other host is the
  one it had before the write.
\<close>

theorem successful_poll_overwrites_record:
  "od_get (host_status (snd (run_client_step colored h (AtRun, ctx) (RunCompleted 0 X)))) h = Some X
   \<and> (\<forall>h'. h' \<noteq> h \<longrightarrow>
         od_get (host_status (snd (run_client_step colored h (AtRun, ctx) (RunCompleted 0 X)))) h'
           = od_get (host_status ctx) h')"
  by (simp add: run_client_update_def od_get_setitem)

text \<open>C1 at a context with two hosts: the record of \<open>a\<close> is replaced, that of \<open>b\<close> stays.\<close>

theorem successful_poll_overwrites_record_witness:
  "od_get (host_status (snd (run_client_step ansi_colored ''a''
       (AtRun, \<lparr>host_status = [(''a'', ''old''), (''b'', ''other'')]\<rparr>) (RunCompleted 0 ''GPU0 OK'')))) ''a''
     = Some ''GPU0 OK''
   \<and> ''b'' \<noteq> ''a''
   \<and> od_get (host_status (snd (run_client_step ansi_colored ''a''
       (AtRun, \<lparr>host_status = [(''a'', ''old''), (''b'', ''other'')]\<rparr>) (RunCompleted 0 ''GPU0 OK'')))) ''b''
     = Some ''other''"
  using successful_poll_overwrites_record
    [of ansi_colored "''a''" "\<lparr>host_status = [(''a'', ''old''), (''b'', ''other'')]\<rparr>" "''GPU0 OK''"]
  by (simp add: od_get_def)

text \<open>
  C2. When a poll of host \<open>h\<close> completes with a nonzero exit status, the context after
  the poll is the context before it, whatever was stored (the initial placeholder
  included): the coroutine only prints and goes to sleep.
\<close>

theorem failed_poll_keeps_record:
  "exit_status \<noteq> 0 \<Longrightarrow>
   run_client_step colored h (AtRun, ctx) (RunCompleted exit_status stdout) = (AtSleep, ctx)"
  by (simp add: run_client_update_def)

text \<open>C2 at exit status 1 on the very first poll: the placeholder is still there.\<close>

theorem failed_poll_keeps_record_witness:
  "(1::int) \<noteq> 0 \<and>
   run_client_step ansi_colored ''a'' (AtRun, spawn_clients_init ansi_colored Context_init [''a''])
     (RunCompleted 1 ''gpustat: command not found'')
   = (AtSleep, \<lparr>host_status = [(''a'', host_message ansi_colored ''a'' ''Loading ...'')]\<rparr>)"
  using failed_poll_keeps_record
    [of 1 ansi_colored "''a''" "spawn_clients_init ansi_colored Context_init [''a'']"
        "''gpustat: command not found''"]
  by (simp add: spawn_clients_init_def Context_init_def host_set_message_def)

text \<open>
  C3. When the session of host \<open>h\<close> reports a disconnection during polling (while the
  command runs or while the coroutine sleeps), the coroutine returns, the context is the
  old one with the single assignment of the error record
  \<^verbatim>\<open>colored("(h) ", 'white') + colored(str(ex), 'red') + '\n'\<close> to \<open>h\<close>, and no later
  outcome delivered to this coroutine changes its state or the context.
\<close>

theorem disconnection_writes_error_once:
  "p = AtRun \<or> p = AtSleep \<Longrightarrow>
   run_client_step colored h (p, ctx) (Raised (DisconnectError ex))
     = (Returned, ctx\<lparr>host_status :=
          od_setitem (host_status ctx) h (host_message colored h (colored ex ''red''))\<rparr>)
   \<and> od_get (host_status (snd (run_client_step colored h (p, ctx) (Raised (DisconnectError ex))))) h
     = Some (colored (''('' @ h @ '') '') ''white'' @ colored ex ''red'' @ [CHR 0x0A])
   \<and> run_client colored h (run_client_step colored h (p, ctx) (Raised (DisconnectError ex))) evs
     = run_client_step colored h (p, ctx) (Raised (DisconnectError ex))"
  by (auto simp: host_set_message_def od_get_setitem host_message_def run_client_finished)

text \<open>
  C3 for a disconnection during the sleep after a successful poll: three more outcomes
  change nothing.
\<close>

theorem disconnection_writes_error_once_witness:
  "run_client ansi_colored ''a''
     (run_client_step ansi_colored ''a'' (AtSleep, \<lparr>host_status = [(''a'', ''GPU0 OK'')]\<rparr>)
        (Raised (DisconnectError ''Connection lost'')))
     [SleepReturned, RunCompleted 0 ''GPU0 OK'', Raised (DisconnectError ''again'')]
   = (Returned, \<lparr>host_status =
        [(''a'', host_message ansi_colored ''a'' (ansi_colored ''Connection lost'' ''red''))]\<rparr>)"
  using disconnection_writes_error_once
    [of AtSleep ansi_colored "''a''" "\<lparr>host_status = [(''a'', ''GPU0 OK'')]\<rparr>" "''Connection lost''"
        "[SleepReturned, RunCompleted 0 ''GPU0 OK'', Raised (DisconnectError ''again'')]"]
  by (simp add: host_set_message_def)

text \<open>
  C4 claims that every failure to open the session ends in the error record. The
  \<^verbatim>\<open>except\<close> clause of \<^verbatim>\<open>run_client\<close> names \<^verbatim>\<open>asyncssh.misc.DisconnectError\<close> only. When
  \<^verbatim>\<open>asyncssh.connect\<close> raises anything else (a refused connection is an \<^verbatim>\<open>OSError\<close>),
  the exception leaves the coroutine and the record of the host is still the placeholder,
  not an error line.
\<close>

theorem open_failure_other_exception_counterexample:
  "run_client_step ansi_colored ''b''
      (AtConnect, spawn_clients_init ansi_colored Context_init [''b''])
      (Raised (OtherException ''Connection refused''))
     = (Propagated (OtherException ''Connection refused''),
        \<lparr>host_status = [(''b'', host_message ansi_colored ''b'' ''Loading ...'')]\<rparr>)
   \<and> host_message ansi_colored ''b'' ''Loading ...''
       \<noteq> host_message ansi_colored ''b'' (ansi_colored ''Connection refused'' ''red'')"
  by (simp add: spawn_clients_init_def Context_init_def host_set_message_def host_message_def
      ansi_colored_def)

text \<open>
  C4, amended. In a fleet with pairwise distinct host names, when opening the session of
  host \<open>h\<close> raises a \<^verbatim>\<open>DisconnectError\<close>, the coroutine of \<open>h\<close> returns, the record of
  \<open>h\<close> becomes the error line
  \<^verbatim>\<open>colored("(h) ", 'white') + colored(str(ex), 'red') + '\n'\<close>, and after any further
  events of the fleet the record is still that line and the coroutine is still returned.
  An exception of any other type leaves the context as it is and the coroutine ended
  by that exception.
\<close>

theorem open_disconnect_error_is_terminal:
  assumes "distinct (map fst ms)" and "i < length ms" and "ms ! i = (h, AtConnect)"
  shows "fleet_step colored (ctx, ms) (i, Raised (DisconnectError ex))
           = (host_set_message colored ctx h (colored ex ''red''), ms[i := (h, Returned)])
       \<and> od_get (host_status (host_set_message colored ctx h (colored ex ''red''))) h
           = Some (colored (''('' @ h @ '') '') ''white'' @ colored ex ''red'' @ [CHR 0x0A])
       \<and> od_get (host_status (fst (fleet_run colored
              (fleet_step colored (ctx, ms) (i, Raised (DisconnectError ex))) evs))) h
           = Some (colored (''('' @ h @ '') '') ''white'' @ colored ex ''red'' @ [CHR 0x0A])
       \<and> snd (fleet_run colored
              (fleet_step colored (ctx, ms) (i, Raised (DisconnectError ex))) evs) ! i
           = (h, Returned)
       \<and> fleet_step colored (ctx, ms) (i, Raised (OtherException ex))
           = (ctx, ms[i := (h, Propagated (OtherException ex))])"
proof -
  let ?c = "host_set_message colored ctx h (colored ex ''red'')"
  let ?m = "ms[i := (h, Returned)]"
  have step: "fleet_step colored (ctx, ms) (i, Raised (DisconnectError ex)) = (?c, ?m)"
    using assms(2,3) by (simp add: fleet_step_unfold)
  have rec: "od_get (host_status ?c) h
      = Some (colored (''('' @ h @ '') '') ''white'' @ colored ex ''red'' @ [CHR 0x0A])"
    by (simp add: host_set_message_get host_message_def)
  have "map fst ?m = map fst ms"
    using assms(2,3) by (simp add: map_update list_update_same_conv)
  with assms(1) have d: "distinct (map fst ?m)" by simp
  have l: "i < length ?m" and n: "?m ! i = (h, Returned)"
    using assms(2) by simp_all
  obtain c' m' where run: "fleet_run colored (?c, ?m) evs = (c', m')"
    by (cases "fleet_run colored (?c, ?m) evs")
  have "od_get (host_status c') h = od_get (host_status ?c) h \<and> m' ! i = (h, Returned)"
    by (rule fleet_run_finished [OF run d l n]) simp
  with step rec run have later:
    "od_get (host_status (fst (fleet_run colored
        (fleet_step colored (ctx, ms) (i, Raised (DisconnectError ex))) evs))) h
      = Some (colored (''('' @ h @ '') '') ''white'' @ colored ex ''red'' @ [CHR 0x0A])"
    "snd (fleet_run colored
        (fleet_step colored (ctx, ms) (i, Raised (DisconnectError ex))) evs) ! i = (h, Returned)"
    by simp_all
  have other: "fleet_step colored (ctx, ms) (i, Raised (OtherException ex))
           = (ctx, ms[i := (h, Propagated (OtherException ex))])"
    using assms(2,3) by (simp add: fleet_step_unfold)
  from step rec later other show ?thesis by simp
qed

text \<open>
  C4, amended, for the second of two hosts: its error line survives the polls of the
  first host and outcomes addressed to itself.
\<close>

theorem open_disconnect_error_is_terminal_witness:
  "od_get (host_status (fst (fleet_run ansi_colored
      (fleet_step ansi_colored
         (spawn_clients_init ansi_colored Context_init [''a'', ''b''],
          [(''a'', AtConnect), (''b'', AtConnect)])
         (1, Raised (DisconnectError ''Permission denied'')))
      [(0, Connected), (0, RunCompleted 0 ''GPU0 OK''), (1, Connected),
       (1, RunCompleted 0 ''GPU1 OK'')]))) ''b''
   = Some (ansi_colored ''(b) '' ''white'' @ ansi_colored ''Permission denied'' ''red''
           @ [CHR 0x0A])"
proof -
  have "distinct (map fst [(''a'', AtConnect), (''b'', AtConnect)])"
    and "1 < length [(''a'', AtConnect), (''b'', AtConnect)]"
    and "[(''a'', AtConnect), (''b'', AtConnect)] ! 1 = (''b'', AtConnect)"
    by simp_all
  from open_disconnect_error_is_terminal [OF this, THEN conjunct2, THEN conjunct2, THEN conjunct1]
  show ?thesis by simp
qed

text \<open>
  C5. For a non-empty host list, \<^verbatim>\<open>spawn_clients\<close> started on the empty context does not
  raise; when its coroutines are suspended at their first await, every host of the list
  has the record \<^verbatim>\<open>colored("(h) ", 'white') + "Loading ..." + '\n'\<close>, the keys of the
  dictionary are the hosts in the order of their first occurrence in the list (the list
  itself when no host is repeated), and the rendered body is the conversion of the
  placeholder lines in that order.
\<close>

theorem startup_placeholders_in_order:
  assumes "hosts \<noteq> []"
  shows "spawn_clients colored Context_init hosts
           = Inr (spawn_clients_init colored Context_init hosts,
                  map (\<lambda>host. (host, AtConnect)) hosts)
       \<and> (\<forall>h \<in> set hosts.
             od_get (host_status (spawn_clients_init colored Context_init hosts)) h
               = Some (colored (''('' @ h @ '') '') ''white'' @ ''Loading ...'' @ [CHR 0x0A]))
       \<and> od_keys (host_status (spawn_clients_init colored Context_init hosts))
           = rev (remdups (rev hosts))
       \<and> render_gpustat_body convert (spawn_clients_init colored Context_init hosts)
           = convert (concat (map
               (\<lambda>h. colored (''('' @ h @ '') '') ''white'' @ ''Loading ...'' @ [CHR 0x0A])
               (rev (remdups (rev hosts)))))
       \<and> (distinct hosts \<longrightarrow>
             od_keys (host_status (spawn_clients_init colored Context_init hosts)) = hosts
           \<and> render_gpustat_body convert (spawn_clients_init colored Context_init hosts)
               = convert (concat (map
                   (\<lambda>h. colored (''('' @ h @ '') '') ''white'' @ ''Loading ...'' @ [CHR 0x0A])
                   hosts)))"
proof -
  let ?c = "spawn_clients_init colored Context_init hosts"
  let ?line = "\<lambda>h. colored (''('' @ h @ '') '') ''white'' @ ''Loading ...'' @ [CHR 0x0A]"
  have spawn: "spawn_clients colored Context_init hosts
      = Inr (?c, map (\<lambda>host. (host, AtConnect)) hosts)"
    using assms by (simp add: spawn_clients_def)
  have get: "\<forall>h \<in> set hosts. od_get (host_status ?c) h = Some (?line h)"
    by (simp add: spawn_clients_init_get host_message_def)
  have keys: "od_keys (host_status ?c) = rev (remdups (rev hosts))"
    by (rule spawn_clients_init_keys_empty)
  then have dist: "distinct (od_keys (host_status ?c))" by simp
  have "map (\<lambda>h. case od_get (host_status ?c) h of Some r \<Rightarrow> r | None \<Rightarrow> [])
            (rev (remdups (rev hosts)))
        = map ?line (rev (remdups (rev hosts)))"
    using get by (intro map_cong) auto
  with render_gpustat_body_records [OF dist, of convert] keys
  have render: "render_gpustat_body convert ?c
      = convert (concat (map ?line (rev (remdups (rev hosts)))))"
    by simp
  have "distinct hosts \<Longrightarrow> rev (remdups (rev hosts)) = hosts"
    by (simp add: distinct_remdups_id)
  with spawn get keys render show ?thesis by simp
qed

text \<open>C5 for the host list \<^verbatim>\<open>['a', 'b']\<close>, with the identity for the conversion.\<close>

theorem startup_placeholders_in_order_witness:
  "spawn_clients ansi_colored Context_init [''a'', ''b'']
     = Inr (\<lparr>host_status =
              [(''a'', ansi_colored ''(a) '' ''white'' @ ''Loading ...'' @ [CHR 0x0A]),
               (''b'', ansi_colored ''(b) '' ''white'' @ ''Loading ...'' @ [CHR 0x0A])]\<rparr>,
            [(''a'', AtConnect), (''b'', AtConnect)])
   \<and> render_gpustat_body (\<lambda>body. body) (spawn_clients_init ansi_colored Context_init [''a'', ''b''])
     = ansi_colored ''(a) '' ''white'' @ ''Loading ...'' @ [CHR 0x0A]
       @ ansi_colored ''(b) '' ''white'' @ ''Loading ...'' @ [CHR 0x0A]"
  using startup_placeholders_in_order [of "[''a'', ''b'']" ansi_colored "\<lambda>body. body"]
  by (simp add: spawn_clients_init_def Context_init_def host_set_message_def host_message_def)

text \<open>
  C6. After startup on the empty context and any sequence of events of the fleet
  (whichever hosts are still pending, have been polled or have failed), the keys of the
  dictionary are the hosts in the order in which \<^verbatim>\<open>spawn_clients\<close> first registered them
  (the host list itself when no host is repeated), and the rendered body is the
  conversion of the concatenation of the hosts' current records in that order.
\<close>

theorem render_in_registration_order:
  assumes "spawn_clients colored Context_init hosts = Inr fl"
  shows "od_keys (host_status (fst (fleet_run colored fl evs))) = rev (remdups (rev hosts))
       \<and> render_gpustat_body convert (fst (fleet_run colored fl evs))
           = convert (concat (map
               (\<lambda>h. case od_get (host_status (fst (fleet_run colored fl evs))) h of
                      Some status \<Rightarrow> status | None \<Rightarrow> [])
               (rev (remdups (rev hosts)))))
       \<and> (distinct hosts \<longrightarrow>
             od_keys (host_status (fst (fleet_run colored fl evs))) = hosts)"
proof -
  let ?c = "spawn_clients_init colored Context_init hosts"
  let ?ms = "map (\<lambda>host. (host, AtConnect)) hosts"
  from assms have fl: "fl = (?c, ?ms)"
    by (simp add: spawn_clients_def Let_def split: if_splits)
  have k0: "od_keys (host_status ?c) = rev (remdups (rev hosts))"
    by (rule spawn_clients_init_keys_empty)
  have sub: "set (map fst ?ms) \<subseteq> set (od_keys (host_status ?c))"
    by (simp add: k0 comp_def)
  obtain c' ms' where run: "fleet_run colored (?c, ?ms) evs = (c', ms')"
    by (cases "fleet_run colored (?c, ?ms) evs")
  from fleet_run_keys [OF run sub] k0
  have keys: "od_keys (host_status c') = rev (remdups (rev hosts))" by simp
  then have "distinct (od_keys (host_status c'))" by simp
  from render_gpustat_body_records [OF this, of convert] keys
  have render: "render_gpustat_body convert c'
      = convert (concat (map
          (\<lambda>h. case od_get (host_status c') h of Some status \<Rightarrow> status | None \<Rightarrow> [])
          (rev (remdups (rev hosts)))))"
    by simp
  have "distinct hosts \<Longrightarrow> rev (remdups (rev hosts)) = hosts"
    by (simp add: distinct_remdups_id)
  with keys render fl run show ?thesis by simp
qed

text \<open>
  C6 for two hosts: the second host fails before the first one is polled; the body still
  shows the first host's record first.
\<close>

theorem render_in_registration_order_witness:
  "render_gpustat_body (\<lambda>body. body) (fst (fleet_run ansi_colored
       (spawn_clients_init ansi_colored Context_init [''a'', ''b''],
        [(''a'', AtConnect), (''b'', AtConnect)])
       [(1, Raised (DisconnectError ''Connection lost'')), (0, Connected),
        (0, RunCompleted 0 ''GPU0 OK'')]))
   = ''GPU0 OK'' @ ansi_colored ''(b) '' ''white'' @ ansi_colored ''Connection lost'' ''red''
       @ [CHR 0x0A]"
proof -
  have "spawn_clients ansi_colored Context_init [''a'', ''b'']
      = Inr (spawn_clients_init ansi_colored Context_init [''a'', ''b''],
             [(''a'', AtConnect), (''b'', AtConnect)])"
    by (simp add: spawn_clients_def)
  from render_in_registration_order [where convert = "\<lambda>body. body"
      and evs = "[(1, Raised (DisconnectError ''Connection lost'')), (0, Connected),
           (0, RunCompleted 0 ''GPU0 OK'')]", OF this, THEN conjunct2, THEN conjunct1]
  show ?thesis
    by (simp add: fleet_run_def fleet_step_def spawn_clients_init_def Context_init_def
        host_set_message_def host_message_def run_client_update_def od_get_def)
qed

text \<open>
  C7 claims a per-host prefix on every non-empty record, the last successful output
  included. A successful poll stores \<^verbatim>\<open>result.stdout\<close> as it is: after the output
  \<^verbatim>\<open>GPU0 OK\<close> for host \<open>a\<close> the record, and the text the rendering loop appends for it, is
  \<^verbatim>\<open>GPU0 OK\<close>, which does not start with \<^verbatim>\<open>colored("(a) ", 'white')\<close>.
\<close>

theorem successful_output_has_no_prefix_counterexample:
  "host_status (snd (run_client_step ansi_colored ''a''
       (AtRun, spawn_clients_init ansi_colored Context_init [''a''])
       (RunCompleted 0 ''GPU0 OK'')))
     = [(''a'', ''GPU0 OK'')]
   \<and> render_loop [] [(''a'', ''GPU0 OK'')] = ''GPU0 OK''
   \<and> \<not> prefix (ansi_colored (''('' @ ''a'' @ '') '') ''white'') ''GPU0 OK''"
  by (simp add: spawn_clients_init_def Context_init_def host_set_message_def
      run_client_update_def ansi_colored_def)

text \<open>
  C7, amended. A record written through \<^verbatim>\<open>host_set_message\<close> (the placeholder written by
  \<^verbatim>\<open>spawn_clients\<close> and the error line written on a \<^verbatim>\<open>DisconnectError\<close>) starts with the
  prefix \<^verbatim>\<open>colored("(h) ", 'white')\<close> of its host, and the rendering loop appends the
  record as it is. A record written by a successful poll is the output of the command;
  when it is not empty the loop appends it as it is, with no prefix of the program's.
\<close>

theorem message_records_carry_host_prefix:
  "od_get (host_status (host_set_message colored ctx h msg)) h
     = Some (host_message colored h msg)
   \<and> prefix (colored (''('' @ h @ '') '') ''white'') (host_message colored h msg)
   \<and> render_loop body ((h, host_message colored h msg) # items)
     = render_loop (body @ host_message colored h msg) items
   \<and> spawn_clients_init colored ctx [h] = host_set_message colored ctx h ''Loading ...''
   \<and> snd (run_client_except colored h ctx (DisconnectError ex))
     = host_set_message colored ctx h (colored ex ''red'')
   \<and> od_get (host_status (run_client_update h ctx 0 stdout)) h = Some stdout
   \<and> (stdout \<noteq> [] \<longrightarrow>
        render_loop body ((h, stdout) # items) = render_loop (body @ stdout) items)"
  by (simp add: host_set_message_get host_message_def spawn_clients_init_def
      run_client_update_def od_get_setitem)

text \<open>C7, amended, for the placeholder of host \<open>a\<close> and for the output \<^verbatim>\<open>GPU0 OK\<close>.\<close>

theorem message_records_carry_host_prefix_witness:
  "prefix (ansi_colored ''(a) '' ''white'') (host_message ansi_colored ''a'' ''Loading ...'')
   \<and> render_loop ''x'' [(''a'', host_message ansi_colored ''a'' ''Loading ...'')]
     = ''x'' @ ansi_colored ''(a) '' ''white'' @ ''Loading ...'' @ [CHR 0x0A]
   \<and> ''GPU0 OK'' \<noteq> []
   \<and> render_loop ''x'' [(''a'', ''GPU0 OK'')] = ''xGPU0 OK''"
  using message_records_carry_host_prefix
    [of ansi_colored Context_init "''a''" "''Loading ...''" "''x''" "[]" "''lost''" "''GPU0 OK''"]
  by (simp add: host_message_def)

text \<open>
  C8. For a text message received on an open connection: when its data is \<^verbatim>\<open>close\<close> the
  response is closed, nothing is sent and the handler ends, whatever messages follow;
  for any other data the handler sends exactly one message, the body rendered from the
  context of that moment, and goes on with the next message. The result does not depend
  on the data otherwise.
\<close>

theorem text_message_closes_or_refreshes:
  assumes "\<not> closed ws" and "msg_type msg = TEXT"
  shows "(msg_data msg = ''close'' \<longrightarrow>
            websocket_handler convert ws ((msg, ctx) # rest) = ws\<lparr>closed := True\<rparr>)
       \<and> (msg_data msg \<noteq> ''close'' \<longrightarrow>
            handle_websocketmessage convert ctx ws msg
              = ws\<lparr>sent := sent ws @ [render_gpustat_body convert ctx]\<rparr>
          \<and> websocket_handler convert ws ((msg, ctx) # rest)
              = websocket_handler convert
                  (ws\<lparr>sent := sent ws @ [render_gpustat_body convert ctx]\<rparr>) rest)"
  using assms by (cases rest) (auto simp: handle_websocketmessage_def)

text \<open>
  C8 for a refresh request followed by \<^verbatim>\<open>close\<close> and one more request: one body is sent,
  the request after \<^verbatim>\<open>close\<close> is never handled.
\<close>

theorem text_message_closes_or_refreshes_witness:
  "websocket_handler (\<lambda>body. body) \<lparr>closed = False, sent = []\<rparr>
     [(\<lparr>msg_type = TEXT, msg_data = ''gpustat''\<rparr>, \<lparr>host_status = [(''a'', ''GPU0 OK'')]\<rparr>),
      (\<lparr>msg_type = TEXT, msg_data = ''close''\<rparr>, \<lparr>host_status = [(''a'', ''GPU1 OK'')]\<rparr>),
      (\<lparr>msg_type = TEXT, msg_data = ''gpustat''\<rparr>, \<lparr>host_status = [(''a'', ''GPU2 OK'')]\<rparr>)]
   = \<lparr>closed = True, sent = [''GPU0 OK'']\<rparr>"
proof -
  have a: "\<not> closed \<lparr>closed = False, sent = []\<rparr>"
    and b: "msg_type \<lparr>msg_type = TEXT, msg_data = ''gpustat''\<rparr> = TEXT"
    and c: "msg_data \<lparr>msg_type = TEXT, msg_data = ''gpustat''\<rparr> \<noteq> ''close''"
    by simp_all
  have a': "\<not> closed \<lparr>closed = False, sent = [''GPU0 OK'']\<rparr>"
    and b': "msg_type \<lparr>msg_type = TEXT, msg_data = ''close''\<rparr> = TEXT"
    and c': "msg_data \<lparr>msg_type = TEXT, msg_data = ''close''\<rparr> = ''close''"
    by simp_all
  note refresh = text_message_closes_or_refreshes [OF a b, THEN conjunct2, rule_format, OF c,
      THEN conjunct2]
  note close = text_message_closes_or_refreshes [OF a' b', THEN conjunct1, rule_format, OF c']
  have sent1: "\<lparr>closed = False, sent = []\<rparr>
        \<lparr>sent := sent \<lparr>closed = False, sent = []\<rparr>
           @ [render_gpustat_body (\<lambda>body. body) \<lparr>host_status = [(''a'', ''GPU0 OK'')]\<rparr>]\<rparr>
      = \<lparr>closed = False, sent = [''GPU0 OK'']\<rparr>"
    by (simp add: render_gpustat_body_def)
  show ?thesis
    unfolding refresh sent1 close by simp
qed

text \<open>
  C10. A poll of host \<open>h\<close> that succeeds with empty output stores the empty string as the
  record of \<open>h\<close>. In every context where the record of \<open>h\<close> is the empty string (keys
  being unique, as in a dictionary), that is from that poll until a later write stores
  something else, the rendered body is the body of the context without the entry of
  \<open>h\<close>: the host contributes nothing, neither placeholder nor prefix.
\<close>

theorem empty_output_omits_host:
  assumes "distinct (od_keys (host_status c))" and "od_get (host_status c) h = Some []"
  shows "run_client_step colored h (AtRun, ctx) (RunCompleted 0 [])
           = (AtSleep, ctx\<lparr>host_status := od_setitem (host_status ctx) h []\<rparr>)
       \<and> od_get (host_status (ctx\<lparr>host_status := od_setitem (host_status ctx) h []\<rparr>)) h
           = Some []
       \<and> render_gpustat_body convert c
           = render_gpustat_body convert
               (c\<lparr>host_status := filter (\<lambda>(k, status). k \<noteq> h) (host_status c)\<rparr>)"
  using render_skips_empty [OF assms]
  by (simp add: run_client_update_def od_get_setitem render_gpustat_body_def render_loop_concat)

text \<open>
  C10 for the first of two hosts, polled with empty output right after startup: the body
  is the placeholder of the second host alone.
\<close>

theorem empty_output_omits_host_witness:
  "run_client_step ansi_colored ''a''
      (AtRun, spawn_clients_init ansi_colored Context_init [''a'', ''b'']) (RunCompleted 0 [])
     = (AtSleep, \<lparr>host_status =
          [(''a'', []), (''b'', host_message ansi_colored ''b'' ''Loading ...'')]\<rparr>)
   \<and> render_gpustat_body (\<lambda>body. body)
       \<lparr>host_status = [(''a'', []), (''b'', host_message ansi_colored ''b'' ''Loading ...'')]\<rparr>
     = render_gpustat_body (\<lambda>body. body)
       \<lparr>host_status = [(''b'', host_message ansi_colored ''b'' ''Loading ...'')]\<rparr>"
proof -
  let ?c = "\<lparr>host_status = [(''a'', []), (''b'', host_message ansi_colored ''b'' ''Loading ...'')]\<rparr>"
  have "distinct (od_keys (host_status ?c))" and "od_get (host_status ?c) ''a'' = Some []"
    by (simp_all add: od_keys_def od_get_def)
  from empty_output_omits_host [OF this,
      of ansi_colored "spawn_clients_init ansi_colored Context_init [''a'', ''b'']" "\<lambda>body. body"]
  show ?thesis
    by (simp add: spawn_clients_init_def Context_init_def host_set_message_def)
qed

end
